theory Spec2Isabelle
  imports Complex_Main "HOL-Library.Sublist" "HOL-Library.Log_Nat"
begin

section \<open>Python strings\<close>

text \<open>
  A Python \<open>str\<close> is modelled as a \<open>string\<close>: the UTF-8 bytes of the text, so an
  ASCII character is one \<open>char\<close>. Substring and prefix tests on UTF-8 bytes agree
  with the tests on code points. Case mapping and whitespace are modelled for ASCII:
  \<open>py_lower\<close> and \<open>py_upper\<close> change the letters A-Z and a-z only, and \<open>py_strip\<close>
  removes the ASCII characters for which \<open>str.isspace\<close> holds. The case mappings and
  the whitespace of code points beyond ASCII are outside the model.
\<close>

definition py_lower_char :: "char \<Rightarrow> char" where
  "py_lower_char c =
     (let n = (of_char c :: nat) in if 65 \<le> n \<and> n \<le> 90 then char_of (n + 32) else c)"

definition py_upper_char :: "char \<Rightarrow> char" where
  "py_upper_char c =
     (let n = (of_char c :: nat) in if 97 \<le> n \<and> n \<le> 122 then char_of (n - 32) else c)"

definition py_lower :: "string \<Rightarrow> string" where
  "py_lower s = map py_lower_char s"

definition py_upper :: "string \<Rightarrow> string" where
  "py_upper s = map py_upper_char s"

text \<open>\<open>str.isspace\<close> on ASCII: tab, line feed, vertical tab, form feed, carriage return,
  the separators 0x1C to 0x1F, and the space.\<close>

definition py_isspace :: "char \<Rightarrow> bool" where
  "py_isspace c = (let n = (of_char c :: nat) in (9 \<le> n \<and> n \<le> 13) \<or> (28 \<le> n \<and> n \<le> 32))"

definition py_strip :: "string \<Rightarrow> string" where
  "py_strip s = rev (dropWhile py_isspace (rev (dropWhile py_isspace s)))"

text \<open>\<open>pat in s\<close> and \<open>s.startswith(pat)\<close>.\<close>

definition py_in :: "string \<Rightarrow> string \<Rightarrow> bool" where
  "py_in pat s = sublist pat s"

definition py_startswith :: "string \<Rightarrow> string \<Rightarrow> bool" where
  "py_startswith s pat = prefix pat s"

section \<open>Request categorizer\<close>

definition categorize_request :: "string \<Rightarrow> string" where
  "categorize_request request =
     (let text = py_lower request in
      if py_in ''doctor'' text \<or> py_in ''hospital'' text \<or> py_in ''nurse'' text
        then ''medical_comfort''
      else if py_in ''space'' text \<or> py_in ''planet'' text \<or> py_in ''rocket'' text
            \<or> py_in ''star'' text
        then ''space_adventure''
      else if py_in ''animal'' text \<or> py_in ''cat'' text \<or> py_in ''dog'' text
            \<or> py_in ''forest'' text \<or> py_in ''farm'' text
        then ''animal_friendship''
      else ''generic'')"






section \<open>Errors and Python floats\<close>

text \<open>The exceptions the program can raise, as values. \<open>ServiceError\<close> stands for
  whatever the client library of the text service raises.\<close>

datatype py_error =
  RuntimeError string | ValueError | OverflowError | IndexError | EOFError
  | ServiceError string

text \<open>
  A Python \<open>float\<close> is an IEEE double: a finite value, held as the rational it
  denotes, an infinity or a NaN. The sign of a zero is not represented. Arithmetic
  rounds to the nearest double, ties to the even significand: \<open>binade x\<close> is the
  exponent \<open>e\<close> with \<open>2^e \<le> |x| < 2^(e+1)\<close>, the doubles around \<open>x\<close> are the multiples
  of \<open>ulp x\<close>, and a rounded magnitude of \<open>2^1024\<close> or more, one in the binade 1024 or
  above, overflows to an infinity.
\<close>

datatype pyfloat = Finite rat | PosInf | NegInf | NaN

definition round_half_even :: "rat \<Rightarrow> int" where
  "round_half_even x =
     (let f = \<lfloor>x\<rfloor>; r = x - of_int f in
      if r < 1 / 2 then f else if 1 / 2 < r then f + 1 else if even f then f else f + 1)"

definition binade :: "rat \<Rightarrow> int" where
  "binade x =
     (let (p, q) = quotient_of \<bar>x\<bar>; e = bitlen p - bitlen q in
      if 2 powi e \<le> \<bar>x\<bar> then e else e - 1)"

definition ulp :: "rat \<Rightarrow> rat" where
  "ulp x = 2 powi (max (binade x) (- 1022) - 52)"

definition double_round :: "rat \<Rightarrow> rat" where
  "double_round x = (if x = 0 then 0 else of_int (round_half_even (x / ulp x)) * ulp x)"

definition fl :: "rat \<Rightarrow> pyfloat" where
  "fl x =
     (let y = double_round x in
      if 1024 \<le> binade y then (if 0 < y then PosInf else NegInf) else Finite y)"


definition float_sign :: "pyfloat \<Rightarrow> int" where
  "float_sign a =
     (case a of
        Finite x \<Rightarrow> (if x < 0 then - 1 else if 0 < x then 1 else 0)
      | PosInf \<Rightarrow> 1
      | NegInf \<Rightarrow> - 1
      | NaN \<Rightarrow> 0)"

text \<open>\<open>a * b\<close> on floats.\<close>

definition float_mul :: "pyfloat \<Rightarrow> pyfloat \<Rightarrow> pyfloat" where
  "float_mul a b =
     (case (a, b) of
        (Finite x, Finite y) \<Rightarrow> fl (x * y)
      | (NaN, _) \<Rightarrow> NaN
      | (_, NaN) \<Rightarrow> NaN
      | _ \<Rightarrow> (if float_sign a * float_sign b = 0 then NaN
              else if 0 < float_sign a * float_sign b then PosInf else NegInf))"

text \<open>\<open>a <= b\<close> on floats: false when either is a NaN.\<close>

definition float_le :: "pyfloat \<Rightarrow> pyfloat \<Rightarrow> bool" where
  "float_le a b =
     (case (a, b) of
        (Finite x, Finite y) \<Rightarrow> x \<le> y
      | (NaN, _) \<Rightarrow> False
      | (_, NaN) \<Rightarrow> False
      | (NegInf, _) \<Rightarrow> True
      | (_, PosInf) \<Rightarrow> True
      | _ \<Rightarrow> False)"

text \<open>\<open>int(x)\<close> of a float truncates towards zero; it raises \<open>ValueError\<close> on a NaN and
  \<open>OverflowError\<close> on an infinity.\<close>

definition py_int :: "pyfloat \<Rightarrow> py_error + int" where
  "py_int a =
     (case a of
        Finite x \<Rightarrow> Inr (if 0 \<le> x then \<lfloor>x\<rfloor> else \<lceil>x\<rceil>)
      | NaN \<Rightarrow> Inl ValueError
      | _ \<Rightarrow> Inl OverflowError)"

text \<open>\<open>round(x)\<close> of a finite float: the nearest integer, a tie to the even one.\<close>

definition py_round :: "rat \<Rightarrow> int" where
  "py_round x = round_half_even x"

section \<open>Length estimator\<close>

text \<open>The operand \<open>150\<close> is an \<open>int\<close>; the product converts it to the double 150.\<close>

definition estimate_word_target :: "pyfloat \<Rightarrow> py_error + int" where
  "estimate_word_target length_minutes = py_int (float_mul length_minutes (Finite 150))"

section \<open>Text formatting\<close>

text \<open>\<open>str(i)\<close> of an integer, as an f-string renders it.\<close>

fun digits_of :: "nat \<Rightarrow> string" where
  "digits_of n =
     (if n < 10 then [char_of (48 + n)] else digits_of (n div 10) @ [char_of (48 + n mod 10)])"

definition py_str :: "int \<Rightarrow> string" where
  "py_str i = (if i < 0 then CHR ''-'' # digits_of (nat (- i)) else digits_of (nat i))"

text \<open>The format \<open>.1f\<close> of a float: the exact value rounded to one decimal, a tie to the
  even digit.\<close>

definition py_format_1f :: "pyfloat \<Rightarrow> string" where
  "py_format_1f a =
     (case a of
        Finite x \<Rightarrow>
          (let n = nat (round_half_even (\<bar>x\<bar> * 10)) in
           (if x < 0 then ''-'' else []) @ digits_of (n div 10) @ ''.'' @ digits_of (n mod 10))
      | PosInf \<Rightarrow> ''inf''
      | NegInf \<Rightarrow> ''-inf''
      | NaN \<Rightarrow> ''nan'')"

text \<open>Characters of the prompts that a string literal cannot hold: the line feed, the
  double quote, and the UTF-8 bytes of the en dash, the em dash and the plus-minus sign.\<close>

definition nl :: string where
  "nl = [CHR 0x0A]"

definition triple_quote :: string where
  "triple_quote = [CHR 0x22, CHR 0x22, CHR 0x22]"

definition en_dash :: string where
  "en_dash = [CHR 0xE2, CHR 0x80, CHR 0x93]"

definition em_dash :: string where
  "em_dash = [CHR 0xE2, CHR 0x80, CHR 0x94]"

definition plus_minus :: string where
  "plus_minus = [CHR 0xC2, CHR 0xB1]"

text \<open>A triple-quoted literal, line by line: the lines joined by line feeds. The first
  entry is what follows the opening quotes on their line, and the last is what precedes
  the closing quotes on theirs.\<close>

fun py_join_lines :: "string list \<Rightarrow> string" where
  "py_join_lines [] = []"
| "py_join_lines [l] = l"
| "py_join_lines (l # m # ls) = l @ nl @ py_join_lines (m # ls)"

section \<open>The world outside the program\<close>

text \<open>
  A request to the text service, and the world the program runs in: the credential in
  the process environment, the service (what its \<open>n\<close>-th call answers or raises), the
  requests sent so far, the random generator (its successive draws and how many were
  taken), the lines the operator will type, and what was written to the terminal.
\<close>

record request =
  req_model :: string
  req_prompt :: string
  req_max_tokens :: int
  req_temperature :: rat

record world =
  api_key :: "string option"
  service :: "nat \<Rightarrow> request \<Rightarrow> py_error + string"
  calls :: "request list"
  rng :: "nat \<Rightarrow> nat"
  draws :: nat
  stdin :: "string list"
  stdout :: "string list"

text \<open>An action runs in a world and ends in a world, with a value or an exception.\<close>

type_synonym 'a action = "world \<Rightarrow> (py_error + 'a) \<times> world"

definition returns :: "'a \<Rightarrow> 'a action" where
  "returns x w = (Inr x, w)"

definition raises :: "py_error \<Rightarrow> 'a action" where
  "raises e w = (Inl e, w)"

definition and_then :: "'a action \<Rightarrow> ('a \<Rightarrow> 'b action) \<Rightarrow> 'b action" where
  "and_then m f w = (case m w of (Inl e, w1) \<Rightarrow> (Inl e, w1) | (Inr x, w1) \<Rightarrow> f x w1)"

text \<open>\<open>print(s)\<close> writes the text and a line feed; \<open>input(p)\<close> writes the prompt and
  reads a line, and raises \<open>EOFError\<close> when there is none.\<close>

definition printed :: "string \<Rightarrow> world \<Rightarrow> world" where
  "printed s w = w\<lparr>stdout := stdout w @ [s @ nl]\<rparr>"

definition py_print :: "string \<Rightarrow> unit action" where
  "py_print s w = (Inr (), printed s w)"

definition py_input :: "string \<Rightarrow> string action" where
  "py_input p w =
     (case stdin w of
        [] \<Rightarrow> (Inl EOFError, w\<lparr>stdout := stdout w @ [p]\<rparr>)
      | line # rest \<Rightarrow> (Inr line, w\<lparr>stdout := stdout w @ [p], stdin := rest\<rparr>))"

text \<open>\<open>random.choice(xs)\<close>: the entry at the generator's next draw, reduced below the
  length of the list.\<close>

definition random_choice :: "'a list \<Rightarrow> 'a action" where
  "random_choice xs w =
     (if xs = [] then (Inl IndexError, w)
      else (Inr (xs ! (rng w (draws w) mod length xs)), w\<lparr>draws := Suc (draws w)\<rparr>))"

text \<open>The built-in functions whose results the program only passes on: \<open>int(s)\<close> and
  \<open>float(s)\<close> of a string (\<open>None\<close> for a \<open>ValueError\<close>) and \<open>repr(s)\<close>.\<close>

record builtins =
  int_of_str :: "string \<Rightarrow> int option"
  float_of_str :: "string \<Rightarrow> pyfloat option"
  repr_str :: "string \<Rightarrow> string"

section \<open>Model wrapper\<close>

definition default_max_tokens :: int where
  "default_max_tokens = 1500"

definition default_temperature :: rat where
  "default_temperature = 0.4"

text \<open>The arguments of \<open>openai.ChatCompletion.create\<close>: the model, one message of the
  user with the prompt, the token budget and the temperature.\<close>

definition chat_request :: "string \<Rightarrow> int \<Rightarrow> rat \<Rightarrow> request" where
  "chat_request prompt max_tokens temperature =
     \<lparr>req_model = ''gpt-3.5-turbo'', req_prompt = prompt,
      req_max_tokens = max_tokens, req_temperature = temperature\<rparr>"

text \<open>The error raised when the environment holds no credential, or an empty one.\<close>

definition config_error :: py_error where
  "config_error = RuntimeError ''Please set the OPENAI_API_KEY environment variable.''"

definition call_model :: "string \<Rightarrow> int \<Rightarrow> rat \<Rightarrow> string action" where
  "call_model prompt max_tokens temperature w =
     (if api_key w = None \<or> api_key w = Some [] then (Inl config_error, w)
      else
        (let req = chat_request prompt max_tokens temperature
         in (service w (length (calls w)) req, w\<lparr>calls := calls w @ [req]\<rparr>)))"

section \<open>Moral selection and safety\<close>

definition SAFE_MORALS :: "string list" where
  "SAFE_MORALS =
     [''Kindness to others is important.'',
      ''Sharing and generosity make everyone happier.'',
      ''Being honest and telling the truth matters.'',
      ''It is okay to be afraid; courage means trying anyway.'',
      ''Friends help each other and work together.'',
      ''Taking care of the world and nature is important.'',
      ''Everyone makes mistakes, and we can learn from them.'',
      ''Being patient and not giving up helps you grow.'',
      ''It is important to be yourself and accept who you are.'',
      ''Helping others when they need it is a good thing.'']"

definition ask_for_moral :: "string action" where
  "ask_for_moral =
     and_then
       (py_input (''Optional: Is there a specific moral or lesson you want the child to learn? ''
                  @ ''(Press Enter to skip): ''))
       (\<lambda>line. returns (py_strip line))"

definition classify_moral_safety_prompt :: "string \<Rightarrow> int \<Rightarrow> string" where
  "classify_moral_safety_prompt moral age =
     py_join_lines
      ['''',
       ''    You are a safety and ethics classifier for children's bedtime story morals.'',
       '''',
       ''    A parent has requested the following moral/lesson for a story intended for a child'',
       ''    who is '' @ (py_str age) @ '' years old (between 5 and 10):'',
       '''',
       ''    MORAL:'',
       ''    '' @ triple_quote @ moral @ triple_quote,
       '''',
       ''    Your task:'',
       ''    - Decide if this moral is SAFE and AGE-APPROPRIATE for a 5'' @ en_dash @ ''10 year old child.'',
       ''    - A safe moral should emphasize positive traits such as kindness, empathy,'',
       ''    cooperation, honesty, curiosity, patience, courage, self-acceptance,'',
       ''    responsibility, or gentle resilience.'',
       ''    - A moral is UNSAFE if it encourages harm, hatred, exclusion, bullying, cruelty,'',
       ''    risky or illegal behavior, unhealthy relationships, self-blame, extreme'',
       ''    self-sacrifice, or anything that could be psychologically harmful or confusing'',
       ''    to a young child.'',
       '''',
       ''    Return EXACTLY ONE WORD (no explanation):'',
       ''    Either:'',
       ''    SAFE'',
       ''    or'',
       ''    UNSAFE'',
       ''    '']"

definition classify_moral_safety :: "string \<Rightarrow> int \<Rightarrow> bool action" where
  "classify_moral_safety moral age =
     and_then (call_model (classify_moral_safety_prompt moral age) 5 0.0)
       (\<lambda>content. let result = py_upper (py_strip content) in
                  returns (py_startswith result ''SAFE''))"

definition select_moral :: "string \<Rightarrow> int \<Rightarrow> (string \<times> bool \<times> string option) action" where
  "select_moral user_moral age =
     (if user_moral = [] then
        and_then (random_choice SAFE_MORALS) (\<lambda>chosen. returns (chosen, False, None))
      else
        and_then (classify_moral_safety user_moral age)
          (\<lambda>is_safe.
             if is_safe then returns (user_moral, False, None)
             else and_then (random_choice SAFE_MORALS)
                    (\<lambda>safe_moral. returns (safe_moral, True, Some user_moral))))"

section \<open>Storyteller, judge, reviser and feedback\<close>

definition generate_story_prompt ::
  "string \<Rightarrow> int \<Rightarrow> string \<Rightarrow> pyfloat \<Rightarrow> string \<Rightarrow> int \<Rightarrow> string" where
  "generate_story_prompt request age category length_minutes moral target_words =
     py_join_lines
      ['''',
       ''You are an expert fiction writer.'',
       '''',
       ''Goal:'',
       ''Write a bedtime story appropriate for a child who is '' @ (py_str age) @ '' years old (ages 5'' @ en_dash @ ''10).'',
       '''',
       ''USER REQUEST:'',
       triple_quote @ request @ triple_quote,
       '''',
       ''CATEGORY: '' @ category,
       '''',
       ''DESIRED MORAL / LESSON:'',
       triple_quote @ moral @ triple_quote,
       '''',
       ''The story should clearly embody this moral through the actions, choices,'',
       ''and growth of the main character. Do not lecture; show the moral through the story. The main character should learn the moral themselves through the challenge.'',
       '''',
       ''Story length requirements:'',
       ''- The story should take about '' @ (py_format_1f length_minutes) @ '' minutes to read aloud.'',
       ''- Aim for approximately '' @ (py_str target_words) @ '' words total ('' @ plus_minus @ ''20% is okay).'',
       ''- Use clear paragraphs and simple sentence structures.'',
       '''',
       ''Content requirements:'',
       ''- Create characters and worlds that will capture their imaginations and emotions.'',
       ''- Use sensory-rich descriptions so the child can visualize the scene.'',
       ''- The main character should be a child. THey should be kind, curious, or brave - but not perfect. Trying is beautiful.'',
       ''- The story is about the character's inner journey, not the external events.'',
       '''',
       ''Safety requirements:'',
       ''- Keep your target audience of young children firmly in mind.'',
       ''- No violence, no scary imagery, no injuries, no blood, no abuse, no self-harm, no sexual content.'',
       '''',
       ''Story structure requirements:'',
       ''    Write the story in 6 acts:'',
       '''',
       ''    Act 1 '' @ em_dash @ '' This part introduces: The main character (who they are, what they care about), Where they are (setting), What they want (desire)'',
       ''    Act 2 - The Inciting Incident: Something small changes. Something unexpected that sparks curiosity or tension. This gives the story momentum.'',
       ''    Act 3 - Rising Action: Here, the character: Learns something new, meets someone helpful, faces a challenge. The purpose is to grow the character and gently stimulate imagination.'',
       ''    Act 4 - The Turning Point/Climax: A moment of high tension. The moment of insight. The moment of connection. The moment of emotional discovery.'',
       ''    Act 5 - The Resolution: The challenge is resolved. The purpose is to give closure and to emphasize THE MORAL OF THE STORY.'',
       ''    Act 6 - The Denouement (The Sleepy Landing): A peaceful ladning where the world becomes quiet, the tone slows down, the atmosphere becomes cozy. The purpose is to physically prime the child's nervous system for sleep.'',
       '''',
       ''Write the full story now:'',
       '''']"

definition generate_story ::
  "string \<Rightarrow> int \<Rightarrow> string \<Rightarrow> pyfloat \<Rightarrow> string \<Rightarrow> string action" where
  "generate_story request age category length_minutes moral =
     (case estimate_word_target length_minutes of
        Inl e \<Rightarrow> raises e
      | Inr target_words \<Rightarrow>
          call_model
            (generate_story_prompt request age category length_minutes moral target_words)
            3000 0.35)"

definition judge_story_prompt :: "string \<Rightarrow> int \<Rightarrow> pyfloat \<Rightarrow> int \<Rightarrow> string" where
  "judge_story_prompt story age length_minutes target_words =
     py_join_lines
      ['''',
       ''You are a strict, detail-oriented safety and quality classifier for children's bedtime stories.'',
       ''Your job is to evaluate whether a story is fully safe, age-appropriate, calming, and emotionally'',
       ''supportive for a child who is '' @ (py_str age) @ '' years old (between 5 and 10).'',
       '''',
       ''The story should take about '' @ (py_format_1f length_minutes) @ '' minutes to read aloud (~'' @ (py_str target_words) @ '' words).'',
       '''',
       ''Evaluate the story according to the following clearly-defined metrics.'',
       ''For each category, provide a score from 1'' @ en_dash @ ''10 (higher = safer / better / more appropriate).'',
       '''',
       ''SAFETY & QUALITY METRICS:'',
       '''',
       ''1. age_appropriateness'',
       ''   - Is the language, theme, and content suitable for ages 5'' @ en_dash @ ''10?'',
       '''',
       ''2. violence_safety'',
       ''   - No harm, danger, threats, weapons, physical conflict, or injuries.'',
       '''',
       ''3. fear_safety'',
       ''   - No scary imagery, dark tension, frightening creatures, or anxiety-inducing scenes.'',
       '''',
       ''4. medical_safety'',
       ''   - No medical advice, diagnoses, procedures, or descriptions of illness/injury.'',
       '''',
       ''5. emotional_tone'',
       ''   - Calm, gentle, reassuring emotional atmosphere.'',
       '''',
       ''6. language_complexity'',
       ''   - Simple vocabulary, short sentences, concrete imagery appropriate for ages 5'' @ en_dash @ ''10.'',
       '''',
       ''7. social_safety'',
       ''   - No bullying, humiliation, exclusion, stereotypes, or harmful interpersonal behavior.'',
       '''',
       ''8. real_world_safety'',
       ''   - No encouragement of unsafe behaviors (wandering alone at night, climbing dangerous places).'',
       '''',
       ''9. sensory_safety'',
       ''   - Avoids overstimulating sensory descriptions (chaos, loud noises, fast danger, flashing lights).'',
       '''',
       ''10. moral_clarity'',
       ''    - The story reinforces positive social-emotional lessons suitable for young children.'',
       '''',
       ''11. ending_serenity'',
       ''    - Ends with a peaceful, calming image appropriate for bedtime.'',
       '''',
       ''12. length_match'',
       ''    - Does the story roughly match the intended length (~'' @ (py_str target_words) @ '' words '' @ plus_minus @ ''20%)?'',
       '''',
       ''RETURN FORMAT:'',
       '''',
       ''A. A list of scores (1'' @ en_dash @ ''10) for each metric in the order above.'',
       ''B. A short bullet list of specific improvements to make the story:'',
       ''   - clearer,'',
       ''   - more soothing,'',
       ''   - safer across all metrics,'',
       ''   - and closer to the intended length (if needed).'',
       '''',
       ''Do NOT rewrite the story; only critique it.'',
       '''',
       ''STORY TO EVALUATE:'',
       triple_quote @ story @ triple_quote,
       '''']"

definition judge_story :: "string \<Rightarrow> int \<Rightarrow> pyfloat \<Rightarrow> string action" where
  "judge_story story age length_minutes =
     (case estimate_word_target length_minutes of
        Inl e \<Rightarrow> raises e
      | Inr target_words \<Rightarrow>
          call_model (judge_story_prompt story age length_minutes target_words)
            default_max_tokens 0.2)"

definition revise_story_prompt ::
  "string \<Rightarrow> string \<Rightarrow> int \<Rightarrow> pyfloat \<Rightarrow> int \<Rightarrow> string" where
  "revise_story_prompt original_story judge_feedback age length_minutes target_words =
     py_join_lines
      ['''',
       ''You are a strict safety censor and story repair specialist for children's bedtime stories.'',
       '''',
       ''Your job is to REMOVE any unsafe, inappropriate, overstimulating, frightening,'',
       ''medically inappropriate, socially harmful, or age-inappropriate content flagged'',
       ''by the judge, and REWRITE the story so it is fully safe, calming, and suitable'',
       ''for a child who is '' @ (py_str age) @ '' years old (ages 5'' @ en_dash @ ''10).'',
       '''',
       ''The story should be about '' @ (py_format_1f length_minutes) @ '' minutes (~'' @ (py_str target_words) @ '' words).'',
       '''',
       ''You must treat the judge feedback as authoritative safety requirements.'',
       '''',
       ''JUDGE FEEDBACK (must be fully addressed):'',
       triple_quote @ judge_feedback @ triple_quote,
       '''',
       ''ORIGINAL STORY:'',
       triple_quote @ original_story @ triple_quote,
       '''',
       ''YOUR TASK:'',
       ''- Strictly censor ALL content identified as unsafe or inappropriate by the judge.'',
       ''- Delete unsafe scenes entirely, not partially.'',
       ''- Rewrite missing or removed sections so the story still flows smoothly and logically.'',
       ''- Maintain a calm, soothing emotional tone throughout.'',
       ''- Keep the story clearly appropriate for ages 5'' @ en_dash @ ''10.'',
       ''- Ensure there is:'',
       ''  - NO violence or harm,'',
       ''  - NO fear or frightening imagery,'',
       ''  - NO unsafe real-world behaviors,'',
       ''  - NO medical advice, illness, or injuries,'',
       ''  - NO bullying or negative social behavior,'',
       ''  - NO sensory overstimulation,'',
       ''  - NO complex adult concepts.'',
       ''- Replace unsafe elements with soft, gentle, friendly, or magical alternatives.'',
       ''- Preserve the overall plot intent WITHOUT preserving unsafe details.'',
       ''- End the story with a peaceful, comforting bedtime-appropriate moment.'',
       ''- Aim for the target length (~'' @ (py_str target_words) @ '' words).'',
       '''',
       ''OUTPUT INSTRUCTIONS:'',
       ''Write the FULLY REVISED STORY below, containing ONLY safe, calm,'',
       ''emotionally warm content suitable for a bedtime story for ages 5'' @ en_dash @ ''10.'',
       '''',
       ''Do NOT explain your changes. Do NOT include notes. ONLY output the revised story.'',
       '''']"

definition revise_story :: "string \<Rightarrow> string \<Rightarrow> int \<Rightarrow> pyfloat \<Rightarrow> string action" where
  "revise_story original_story judge_feedback age length_minutes =
     (case estimate_word_target length_minutes of
        Inl e \<Rightarrow> raises e
      | Inr target_words \<Rightarrow>
          call_model
            (revise_story_prompt original_story judge_feedback age length_minutes target_words)
            3000 0.35)"

definition apply_user_feedback_prompt ::
  "string \<Rightarrow> string \<Rightarrow> int \<Rightarrow> pyfloat \<Rightarrow> int \<Rightarrow> string" where
  "apply_user_feedback_prompt current_story feedback age length_minutes target_words =
     py_join_lines
      ['''',
       ''You will refine a children's bedtime story based on user feedback.'',
       '''',
       ''Child age: '' @ (py_str age) @ '' (between 5 and 10)'',
       ''Target: '' @ (py_format_1f length_minutes) @ '' minutes (~'' @ (py_str target_words) @ '' words).'',
       '''',
       ''Current story:'',
       triple_quote @ current_story @ triple_quote,
       '''',
       ''User feedback:'',
       triple_quote @ feedback @ triple_quote,
       '''',
       ''Revise the story to incorporate the feedback in an age-appropriate way.'',
       ''Do not add anything scary, violent, or medically inappropriate.'',
       ''Keep the story approximately the same length (around '' @ (py_str target_words) @ '' words, '' @ plus_minus @ ''20%).'',
       '''',
       ''Write the final story:'',
       '''']"

definition apply_user_feedback :: "string \<Rightarrow> string \<Rightarrow> int \<Rightarrow> pyfloat \<Rightarrow> string action" where
  "apply_user_feedback current_story feedback age length_minutes =
     (case estimate_word_target length_minutes of
        Inl e \<Rightarrow> raises e
      | Inr target_words \<Rightarrow>
          call_model
            (apply_user_feedback_prompt current_story feedback age length_minutes target_words)
            3000 0.4)"

section \<open>Operator prompts and the main flow\<close>

text \<open>Each round of a prompt loop reads one line, so the loops end with the operator's
  input: with an answer in range, or with \<open>EOFError\<close>.\<close>

function ask_for_length_minutes :: "builtins \<Rightarrow> pyfloat action" where
  "ask_for_length_minutes py w =
     (case py_input (''How long should the story be? (5'' @ en_dash @ ''20 minutes): '') w of
        (Inl e, w1) \<Rightarrow> (Inl e, w1)
      | (Inr line, w1) \<Rightarrow>
          (case float_of_str py (py_strip line) of
             Some minutes \<Rightarrow>
               if float_le (Finite 5) minutes \<and> float_le minutes (Finite 20)
               then (Inr minutes, w1)
               else ask_for_length_minutes py
                      (printed ''Please enter a number between 5 and 20.'' w1)
           | None \<Rightarrow>
               ask_for_length_minutes py
                 (printed ''Please enter a valid number (e.g., 5, 7.5, 12, 19.2).'' w1)))"
  by pat_completeness auto
termination
  by (relation "measure (\<lambda>(py, w). length (stdin w))")
    (auto simp add: py_input_def printed_def split: list.splits)

function ask_for_age :: "builtins \<Rightarrow> int action" where
  "ask_for_age py w =
     (case py_input (''How old is the child? (5'' @ en_dash @ ''10): '') w of
        (Inl e, w1) \<Rightarrow> (Inl e, w1)
      | (Inr line, w1) \<Rightarrow>
          (case int_of_str py (py_strip line) of
             Some age \<Rightarrow>
               if 5 \<le> age \<and> age \<le> 10 then (Inr age, w1)
               else ask_for_age py (printed ''Please enter a number between 5 and 10.'' w1)
           | None \<Rightarrow> ask_for_age py (printed ''Please enter a valid number.'' w1)))"
  by pat_completeness auto
termination
  by (relation "measure (\<lambda>(py, w). length (stdin w))")
    (auto simp add: py_input_def printed_def split: list.splits)

text \<open>The equations of the loops are unfolded by hand: they rewrite a loop to itself.\<close>

declare ask_for_length_minutes.simps [simp del]

declare ask_for_age.simps [simp del]

text \<open>\<open>{x!r}\<close> of a value that is a string or \<open>None\<close>.\<close>

definition repr_optional :: "builtins \<Rightarrow> string option \<Rightarrow> string" where
  "repr_optional py x = (case x of None \<Rightarrow> ''None'' | Some s \<Rightarrow> repr_str py s)"

definition main :: "builtins \<Rightarrow> unit action" where
  "main py =
     and_then (py_print ''=== Hippocratic AI Bedtime Story Engine ==='') (\<lambda>_.
     and_then (ask_for_age py) (\<lambda>age.
     and_then (ask_for_length_minutes py) (\<lambda>length_minutes.
     and_then (py_input ''What kind of story would you like? '') (\<lambda>user_request.
     and_then ask_for_moral (\<lambda>user_moral.
     and_then (select_moral user_moral age) (\<lambda>(selected_moral, overridden, original_moral).
     and_then
       (if overridden then
          and_then (py_print (nl @ ''[DISCLAIMER]'')) (\<lambda>_.
          and_then
            (py_print
              (''The requested moral/lesson was deemed unsafe or inappropriate for ages 5''
               @ en_dash @ ''10.'' @ nl
               @ ''A safe, age-appropriate moral was selected at random instead.'')) (\<lambda>_.
          and_then
            (py_print (''Original requested moral: '' @ repr_optional py original_moral)) (\<lambda>_.
          py_print (''Using safe moral instead: '' @ repr_str py selected_moral @ nl))))
        else py_print (nl @ ''Using moral: '' @ repr_str py selected_moral @ nl)) (\<lambda>_.
     let category = categorize_request user_request in
     and_then (generate_story user_request age category length_minutes selected_moral) (\<lambda>draft.
     and_then (py_print (nl @ ''--- FIRST DRAFT ---'' @ nl)) (\<lambda>_.
     and_then (py_print draft) (\<lambda>_.
     and_then (judge_story draft age length_minutes) (\<lambda>feedback.
     and_then (py_print (nl @ ''--- SAFETY CLASSIFIER FEEDBACK ---'' @ nl)) (\<lambda>_.
     and_then (py_print feedback) (\<lambda>_.
     and_then (revise_story draft feedback age length_minutes) (\<lambda>revised.
     and_then (py_print (nl @ ''--- REVISED STORY ---'' @ nl)) (\<lambda>_.
     and_then (py_print revised) (\<lambda>_.
     and_then (py_input (nl @ ''Would you like any changes? '')) (\<lambda>line.
     let user_notes = py_strip line in
     if user_notes \<noteq> [] then
       and_then (apply_user_feedback revised user_notes age length_minutes) (\<lambda>final_story.
       and_then (py_print (nl @ ''--- FINAL STORY ---'' @ nl)) (\<lambda>_.
       py_print final_story))
     else
       and_then (py_print (nl @ ''--- FINAL STORY ---'' @ nl)) (\<lambda>_.
       py_print revised))))))))))))))))))"

section \<open>The main flow in two parts\<close>

text \<open>The main flow up to the printing of the revised story, returning what its last
  step uses, and that last step, the optional refinement. Lemma \<open>main_split\<close> below shows
  that the main flow is the one followed by the other.\<close>

definition main_until_revised :: "builtins \<Rightarrow> (string \<times> int \<times> pyfloat) action" where
  "main_until_revised py =
     and_then (py_print ''=== Hippocratic AI Bedtime Story Engine ==='') (\<lambda>_.
     and_then (ask_for_age py) (\<lambda>age.
     and_then (ask_for_length_minutes py) (\<lambda>length_minutes.
     and_then (py_input ''What kind of story would you like? '') (\<lambda>user_request.
     and_then ask_for_moral (\<lambda>user_moral.
     and_then (select_moral user_moral age) (\<lambda>(selected_moral, overridden, original_moral).
     and_then
       (if overridden then
          and_then (py_print (nl @ ''[DISCLAIMER]'')) (\<lambda>_.
          and_then
            (py_print
              (''The requested moral/lesson was deemed unsafe or inappropriate for ages 5''
               @ en_dash @ ''10.'' @ nl
               @ ''A safe, age-appropriate moral was selected at random instead.'')) (\<lambda>_.
          and_then
            (py_print (''Original requested moral: '' @ repr_optional py original_moral)) (\<lambda>_.
          py_print (''Using safe moral instead: '' @ repr_str py selected_moral @ nl))))
        else py_print (nl @ ''Using moral: '' @ repr_str py selected_moral @ nl)) (\<lambda>_.
     let category = categorize_request user_request in
     and_then (generate_story user_request age category length_minutes selected_moral) (\<lambda>draft.
     and_then (py_print (nl @ ''--- FIRST DRAFT ---'' @ nl)) (\<lambda>_.
     and_then (py_print draft) (\<lambda>_.
     and_then (judge_story draft age length_minutes) (\<lambda>feedback.
     and_then (py_print (nl @ ''--- SAFETY CLASSIFIER FEEDBACK ---'' @ nl)) (\<lambda>_.
     and_then (py_print feedback) (\<lambda>_.
     and_then (revise_story draft feedback age length_minutes) (\<lambda>revised.
     and_then (py_print (nl @ ''--- REVISED STORY ---'' @ nl)) (\<lambda>_.
     and_then (py_print revised) (\<lambda>_.
     returns (revised, age, length_minutes)))))))))))))))))"

definition refine_step :: "string \<Rightarrow> int \<Rightarrow> pyfloat \<Rightarrow> unit action" where
  "refine_step revised age length_minutes =
     and_then (py_input (nl @ ''Would you like any changes? '')) (\<lambda>line.
     let user_notes = py_strip line in
     if user_notes \<noteq> [] then
       and_then (apply_user_feedback revised user_notes age length_minutes) (\<lambda>final_story.
       and_then (py_print (nl @ ''--- FINAL STORY ---'' @ nl)) (\<lambda>_.
       py_print final_story))
     else
       and_then (py_print (nl @ ''--- FINAL STORY ---'' @ nl)) (\<lambda>_.
       py_print revised))"

section \<open>Reasoning about actions\<close>

text \<open>\<open>ends_in m P E Q\<close>: started in a world where \<open>P\<close> holds, the action \<open>m\<close> ends
  with an exception and a world that satisfy \<open>E\<close>, or with a value and a world that
  satisfy \<open>Q\<close>. A world is \<open>locked\<close> when it has no usable credential and the requests
  sent so far are the given ones.\<close>

definition ends_in ::
  "'a action \<Rightarrow> (world \<Rightarrow> bool) \<Rightarrow> (py_error \<Rightarrow> world \<Rightarrow> bool) \<Rightarrow> ('a \<Rightarrow> world \<Rightarrow> bool) \<Rightarrow> bool" where
  "ends_in m P E Q =
     (\<forall>w. P w \<longrightarrow> (case m w of (Inl e, w1) \<Rightarrow> E e w1 | (Inr x, w1) \<Rightarrow> Q x w1))"

definition locked :: "request list \<Rightarrow> world \<Rightarrow> bool" where
  "locked sent w = ((api_key w = None \<or> api_key w = Some []) \<and> calls w = sent)"

definition stopped :: "request list \<Rightarrow> py_error \<Rightarrow> world \<Rightarrow> bool" where
  "stopped sent e w = (locked sent w \<and> (e = EOFError \<or> e = config_error))"

text \<open>The durations that the prompt for the length accepts.\<close>

definition in_range :: "pyfloat \<Rightarrow> bool" where
  "in_range m = (float_le (Finite 5) m \<and> float_le m (Finite 20))"

section \<open>Reading a prompt\<close>

text \<open>\<open>after_first pat text\<close> is what follows the first occurrence of \<open>pat\<close> in
  \<open>text\<close>; \<open>occur_in_order pats text\<close> holds when the patterns occur in the text one
  after the other, each after the end of the one before.\<close>

fun after_first :: "string \<Rightarrow> string \<Rightarrow> string option" where
  "after_first pat [] = (if pat = [] then Some [] else None)"
| "after_first pat (c # cs) =
     (if prefix pat (c # cs) then Some (drop (length pat) (c # cs)) else after_first pat cs)"

fun occur_in_order :: "string list \<Rightarrow> string \<Rightarrow> bool" where
  "occur_in_order [] text = True"
| "occur_in_order (pat # pats) text =
     (case after_first pat text of
        None \<Rightarrow> False
      | Some rest \<Rightarrow> occur_in_order pats rest)"

text \<open>The twelve metrics as the judge's instruction lists them, and the lines of the
  instruction that ask for the scores, ask for the suggestions and forbid a rewrite.\<close>

definition metric_headers :: "string list" where
  "metric_headers =
     [''1. age_appropriateness'', ''2. violence_safety'', ''3. fear_safety'',
      ''4. medical_safety'', ''5. emotional_tone'', ''6. language_complexity'',
      ''7. social_safety'', ''8. real_world_safety'', ''9. sensory_safety'',
      ''10. moral_clarity'', ''11. ending_serenity'', ''12. length_match'']"

definition judge_outline :: "string \<Rightarrow> string list" where
  "judge_outline story =
     [''For each category, provide a score from 1'' @ en_dash
        @ ''10 (higher = safer / better / more appropriate).'']
     @ metric_headers
     @ [''A. A list of scores (1'' @ en_dash @ ''10) for each metric in the order above.'',
        ''B. A short bullet list of specific improvements to make the story:'',
        ''Do NOT rewrite the story; only critique it.'',
        ''STORY TO EVALUATE:'',
        triple_quote @ story @ triple_quote]"

section \<open>Example worlds\<close>

text \<open>Worlds and built-ins for the concrete runs below: a service that answers every
  request with the same text, a generator that always draws 3, and built-ins that read
  the lines \<open>7\<close> and \<open>10\<close> and quote a string with apostrophes.\<close>

definition always_answers :: "string \<Rightarrow> nat \<Rightarrow> request \<Rightarrow> py_error + string" where
  "always_answers text n req = Inr text"

definition always_draws :: "nat \<Rightarrow> nat \<Rightarrow> nat" where
  "always_draws r n = r"

definition example_world :: "string option \<Rightarrow> string \<Rightarrow> string list \<Rightarrow> world" where
  "example_world key answer typed =
     \<lparr>api_key = key, service = always_answers answer, calls = [],
      rng = always_draws 3, draws = 0, stdin = typed, stdout = []\<rparr>"

definition example_int_of_str :: "string \<Rightarrow> int option" where
  "example_int_of_str s = (if s = ''7'' then Some 7 else None)"

definition example_float_of_str :: "string \<Rightarrow> pyfloat option" where
  "example_float_of_str s = (if s = ''10'' then Some (Finite 10) else None)"

definition example_repr_str :: "string \<Rightarrow> string" where
  "example_repr_str s = [CHR 0x27] @ s @ [CHR 0x27]"

text \<open>What the operator types in the example run: the age, the duration, the request,
  no moral and no change.\<close>

definition example_typed :: "string list" where
  "example_typed = [''7'', ''10'', ''a story about a brave dog'', [], []]"

definition example_builtins :: builtins where
  "example_builtins =
     \<lparr>int_of_str = example_int_of_str, float_of_str = example_float_of_str,
      repr_str = example_repr_str\<rparr>"

section \<open>Facts about strings\<close>













section \<open>Facts about floats\<close>

lemma round_half_even_bounds:
  "of_int (round_half_even z) \<le> z + 1 / 2" "z - 1 / 2 \<le> of_int (round_half_even z)"
  unfolding round_half_even_def Let_def by (auto; linarith)+

lemma round_half_even_of_int: "round_half_even (of_int n) = n"
  unfolding round_half_even_def Let_def by simp

lemma binade_le: 
  assumes "x \<noteq> 0" shows "2 powi binade x \<le> \<bar>x\<bar>"
proof -
  obtain p q where pq: "quotient_of \<bar>x\<bar> = (p, q)" by (cases "quotient_of \<bar>x\<bar>")
  have q: "0 < q" using pq by (rule quotient_of_denom_pos)
  have xe: "\<bar>x\<bar> = of_int p / of_int q" using pq by (rule quotient_of_div)
  have p: "0 < p" using assms xe q
    by (metis q xe assms zero_less_abs_iff of_int_eq_0_iff of_int_less_iff abs_not_less_zero
        abs_of_pos zero_less_divide_iff)
  show ?thesis
  proof (cases "2 powi (bitlen p - bitlen q) \<le> \<bar>x\<bar>")
    case True
    then show ?thesis by (simp add: binade_def pq)
  next
    case False
    have b: "binade x = bitlen p - bitlen q - 1" using False by (simp add: binade_def pq)
    have 1: "(2::int) ^ nat (bitlen p - 1) \<le> p" using bitlen_bounds[OF p] by simp
    have 2: "q < (2::int) ^ nat (bitlen q)" using bitlen_bounds[OF q] by simp
    have bp: "1 \<le> bitlen p" using p by (simp add: bitlen_alt_def)
    have bq: "0 \<le> bitlen q" by (rule bitlen_nonneg)
    have "(2::rat) powi (bitlen p - bitlen q - 1) = 2 powi (bitlen p - 1) / 2 powi (bitlen q)"
      by (simp add: power_int_diff)
    also have "\<dots> = 2 ^ nat (bitlen p - 1) / 2 ^ nat (bitlen q)"
      using bp bq by (simp add: power_int_def)
    also have "\<dots> \<le> rat_of_int p / rat_of_int q"
    proof -
      have a: "(2::rat) ^ nat (bitlen p - 1) \<le> of_int p"
      proof -
        have "rat_of_int (2 ^ nat (bitlen p - 1)) \<le> rat_of_int p" using 1 by (simp only: of_int_le_iff)
        then show ?thesis by simp
      qed
      have c: "rat_of_int q \<le> 2 ^ nat (bitlen q)" 
      proof -
        have "rat_of_int q < rat_of_int (2 ^ nat (bitlen q))" using 2 by (simp only: of_int_less_iff)
        then show ?thesis by simp
      qed
      show ?thesis
        by (rule frac_le) (use a c q p in simp_all)
    qed
    finally show ?thesis using b xe by simp
  qed
qed

lemma binade_upper:
  assumes "x \<noteq> 0" shows "\<bar>x\<bar> < 2 powi (binade x + 1)"
proof -
  obtain p q where pq: "quotient_of \<bar>x\<bar> = (p, q)" by (cases "quotient_of \<bar>x\<bar>")
  have q: "0 < q" using pq by (rule quotient_of_denom_pos)
  have xe: "\<bar>x\<bar> = of_int p / of_int q" using pq by (rule quotient_of_div)
  have p: "0 < p" using assms xe q
    by (metis q xe assms zero_less_abs_iff of_int_eq_0_iff of_int_less_iff abs_not_less_zero
        abs_of_pos zero_less_divide_iff)
  show ?thesis
  proof (cases "2 powi (bitlen p - bitlen q) \<le> \<bar>x\<bar>")
    case False
    then show ?thesis by (simp add: binade_def pq)
  next
    case True
    have b: "binade x = bitlen p - bitlen q" using True by (simp add: binade_def pq)
    have 1: "p < (2::int) ^ nat (bitlen p)" using bitlen_bounds[OF p] by simp
    have 2: "(2::int) ^ nat (bitlen q - 1) \<le> q" using bitlen_bounds[OF q] by simp
    have bp: "0 \<le> bitlen p" by (rule bitlen_nonneg)
    have bq: "1 \<le> bitlen q" using q by (simp add: bitlen_alt_def)
    have a: "rat_of_int p < 2 ^ nat (bitlen p)"
    proof -
      have "rat_of_int p < rat_of_int (2 ^ nat (bitlen p))" using 1 by (simp only: of_int_less_iff)
      then show ?thesis by simp
    qed
    have c: "(2::rat) ^ nat (bitlen q - 1) \<le> rat_of_int q"
    proof -
      have "rat_of_int (2 ^ nat (bitlen q - 1)) \<le> rat_of_int q" using 2 by (simp only: of_int_le_iff)
      then show ?thesis by simp
    qed
    have "rat_of_int p / rat_of_int q < 2 ^ nat (bitlen p) / 2 ^ nat (bitlen q - 1)"
      by (rule frac_less) (use a c p q in simp_all)
    also have "\<dots> = 2 powi (bitlen p) / 2 powi (bitlen q - 1)"
      using bp bq by (simp add: power_int_def)
    also have "\<dots> = (2::rat) powi (bitlen p - (bitlen q - 1))"
      by (rule power_int_diff[symmetric]) simp
    also have "bitlen p - (bitlen q - 1) = bitlen p - bitlen q + 1" by simp
    finally show ?thesis using b xe by simp
  qed
qed

lemma binade_zero: "binade 0 = - 2"
  by code_simp

lemma binade_less:
  assumes "\<bar>x\<bar> < 2 powi k" "0 \<le> k" shows "binade x < k"
proof (cases "x = 0")
  case True
  then show ?thesis using assms(2) by (simp add: binade_zero)
next
  case False
  show ?thesis
  proof (rule ccontr)
    assume "\<not> binade x < k"
    then have "(2::rat) powi k \<le> 2 powi binade x" by (simp add: power_int_increasing)
    with binade_le[OF False] assms(1) show False by simp
  qed
qed

lemma ulp_pos: "0 < ulp x" by (simp add: ulp_def)

lemma double_round_near:
  "\<bar>double_round x - x\<bar> \<le> ulp x / 2"
proof (cases "x = 0")
  case True then show ?thesis using ulp_pos[of x] by (simp add: double_round_def)
next
  case False
  let ?u = "ulp x" and ?m = "round_half_even (x / ulp x)"
  have u: "0 < ?u" by (rule ulp_pos)
  have "of_int ?m \<le> x / ?u + 1 / 2" "x / ?u - 1 / 2 \<le> of_int ?m" by (rule round_half_even_bounds)+
  then have "\<bar>of_int ?m - x / ?u\<bar> \<le> 1 / 2" by linarith
  then have "\<bar>of_int ?m - x / ?u\<bar> * ?u \<le> 1 / 2 * ?u" using u by (simp add: mult_right_mono)
  moreover have "\<bar>of_int ?m - x / ?u\<bar> * ?u = \<bar>(of_int ?m - x / ?u) * ?u\<bar>"
    using u by (simp add: abs_mult)
  moreover have "(of_int ?m - x / ?u) * ?u = of_int ?m * ?u - x"
    using u by (simp add: left_diff_distrib)
  ultimately show ?thesis using False by (simp add: double_round_def)
qed

lemma round_half_even_ge: "of_int j \<le> z \<Longrightarrow> j \<le> round_half_even z"
  unfolding round_half_even_def Let_def by (auto simp: le_floor_iff; linarith)

lemma round_half_even_le: "z \<le> of_int j \<Longrightarrow> round_half_even z \<le> j"
proof (cases "z = of_int j")
  case True then show ?thesis by (simp add: round_half_even_of_int)
next
  case False
  assume "z \<le> of_int j"
  with False have "z < of_int j" by simp
  then have "\<lfloor>z\<rfloor> < j" by (simp add: floor_less_iff)
  then show ?thesis unfolding round_half_even_def Let_def by auto
qed

lemma ulp_inverse:
  assumes "binade x \<le> 52"
  shows "ulp x = 1 / of_int (2 ^ nat (52 - max (binade x) (- 1022)))"
proof -
  let ?e = "max (binade x) (- 1022) - 52"
  have "?e \<le> 0" using assms by simp
  then have "(2::rat) powi ?e = inverse (2 ^ nat (- ?e))"
    by (simp add: power_int_def inverse_eq_divide power_divide)
  moreover have "- ?e = 52 - max (binade x) (- 1022)" by simp
  ultimately show ?thesis by (simp add: ulp_def inverse_eq_divide)
qed

lemma double_round_ge_int:
  assumes "binade x \<le> 52" "of_int n \<le> x"
  shows "of_int n \<le> double_round x"
proof (cases "x = 0")
  case True then show ?thesis using assms by (simp add: double_round_def)
next
  case False
  define K :: int where "K = 2 ^ nat (52 - max (binade x) (- 1022))"
  have K: "0 < K" by (simp add: K_def)
  have u: "ulp x = 1 / of_int K" using ulp_inverse[OF assms(1)] by (simp add: K_def)
  have "rat_of_int (n * K) \<le> x * of_int K" using assms(2) K by (simp add: mult_right_mono)
  then have "n * K \<le> round_half_even (x * of_int K)" by (rule round_half_even_ge)
  then have "rat_of_int (n * K) \<le> of_int (round_half_even (x * of_int K))" by (simp only: of_int_le_iff)
  then have "rat_of_int n \<le> of_int (round_half_even (x * of_int K)) / of_int K"
    using K by (simp add: pos_le_divide_eq)
  then show ?thesis using False by (simp add: double_round_def u)
qed

lemma double_round_le_int:
  assumes "binade x \<le> 52" "x \<le> of_int n"
  shows "double_round x \<le> of_int n"
proof (cases "x = 0")
  case True then show ?thesis using assms by (simp add: double_round_def)
next
  case False
  define K :: int where "K = 2 ^ nat (52 - max (binade x) (- 1022))"
  have K: "0 < K" by (simp add: K_def)
  have u: "ulp x = 1 / of_int K" using ulp_inverse[OF assms(1)] by (simp add: K_def)
  have "x * of_int K \<le> rat_of_int (n * K)" using assms(2) K by (simp add: mult_right_mono)
  then have "round_half_even (x * of_int K) \<le> n * K" by (rule round_half_even_le)
  then have "rat_of_int (round_half_even (x * of_int K)) \<le> of_int (n * K)" by (simp only: of_int_le_iff)
  then have "of_int (round_half_even (x * of_int K)) / of_int K \<le> rat_of_int n"
    using K by (simp add: pos_divide_le_eq)
  then show ?thesis using False by (simp add: double_round_def u)
qed

text \<open>Products of a duration between 5 and 20 minutes.\<close>

lemma product_range:
  assumes "750 \<le> x" "x \<le> 3000"
  shows "binade x \<le> 52"
    and "of_int \<lfloor>x\<rfloor> \<le> double_round x"
    and "double_round x \<le> of_int (\<lfloor>x\<rfloor> + 1)"
    and "fl x = Finite (double_round x)"
proof -
  have "\<bar>x\<bar> < 2 powi 12" using assms by simp
  then have "binade x < 12" by (rule binade_less) simp
  then show b: "binade x \<le> 52" by simp
  show lo: "of_int \<lfloor>x\<rfloor> \<le> double_round x"
    by (rule double_round_ge_int[OF b]) simp
  show hi: "double_round x \<le> of_int (\<lfloor>x\<rfloor> + 1)"
    by (rule double_round_le_int[OF b]) linarith
  have "(0::rat) \<le> of_int \<lfloor>x\<rfloor>" using assms by simp
  then have "0 \<le> double_round x" using lo by linarith
  moreover have "\<lfloor>x\<rfloor> \<le> 3000" using assms by (simp add: floor_le_iff)
  then have "rat_of_int (\<lfloor>x\<rfloor> + 1) \<le> 3001" by linarith
  then have "double_round x \<le> 3001" using hi by linarith
  ultimately have "\<bar>double_round x\<bar> < 2 powi 12" by simp
  then have "binade (double_round x) < 12" by (rule binade_less) simp
  then show "fl x = Finite (double_round x)"
    by (simp add: fl_def Let_def)
qed

lemma estimate_in_range:
  assumes "5 \<le> d" "d \<le> 20"
  shows "float_mul (Finite d) (Finite 150) = Finite (double_round (d * 150))"
    and "estimate_word_target (Finite d) = Inr \<lfloor>double_round (d * 150)\<rfloor>"
    and "\<lfloor>d * 150\<rfloor> \<le> \<lfloor>double_round (d * 150)\<rfloor>"
    and "\<lfloor>double_round (d * 150)\<rfloor> \<le> \<lfloor>d * 150\<rfloor> + 1"
proof -
  have r: "750 \<le> d * 150" "d * 150 \<le> 3000" using assms by simp_all
  note pr = product_range[OF r]
  show m: "float_mul (Finite d) (Finite 150) = Finite (double_round (d * 150))"
    by (simp add: float_mul_def pr(4))
  have "(0::rat) \<le> of_int \<lfloor>d * 150\<rfloor>" using r by simp
  then have "0 \<le> double_round (d * 150)" using pr(2) by linarith
  then show "estimate_word_target (Finite d) = Inr \<lfloor>double_round (d * 150)\<rfloor>"
    by (simp add: estimate_word_target_def m py_int_def)
  show "\<lfloor>d * 150\<rfloor> \<le> \<lfloor>double_round (d * 150)\<rfloor>"
    using pr(2) by (simp only: le_floor_iff)
  show "\<lfloor>double_round (d * 150)\<rfloor> \<le> \<lfloor>d * 150\<rfloor> + 1"
    using pr(3) by (simp only: floor_le_iff)
qed



section \<open>Facts about the model wrapper and the moral selector\<close>

lemma SAFE_MORALS_facts:
  "SAFE_MORALS \<noteq> []" "length SAFE_MORALS = 10" "[] \<notin> set SAFE_MORALS"
  by (simp_all add: SAFE_MORALS_def)

lemma SAFE_MORALS_distinct: "distinct SAFE_MORALS"
  by (simp add: SAFE_MORALS_def)

lemma random_choice_SAFE_MORALS:
  "random_choice SAFE_MORALS w =
     (Inr (SAFE_MORALS ! (rng w (draws w) mod 10)), w\<lparr>draws := Suc (draws w)\<rparr>)"
  by (simp add: random_choice_def SAFE_MORALS_facts)

lemma drawn_moral_in_pool: "SAFE_MORALS ! (r mod 10) \<in> set SAFE_MORALS"
  by (simp add: SAFE_MORALS_facts)

lemma call_model_with_key:
  assumes "api_key w = Some k" "k \<noteq> []"
  shows "call_model prompt max_tokens temperature w =
           (service w (length (calls w)) (chat_request prompt max_tokens temperature),
            w\<lparr>calls := calls w @ [chat_request prompt max_tokens temperature]\<rparr>)"
  using assms by (simp add: call_model_def Let_def)

lemma call_model_without_key:
  assumes "api_key w = None \<or> api_key w = Some []"
  shows "call_model prompt max_tokens temperature w = (Inl config_error, w)"
  using assms by (auto simp add: call_model_def)

lemma select_moral_empty:
  "select_moral [] age w =
     (Inr (SAFE_MORALS ! (rng w (draws w) mod 10), False, None), w\<lparr>draws := Suc (draws w)\<rparr>)"
  by (simp add: select_moral_def and_then_def returns_def random_choice_SAFE_MORALS)

lemma select_moral_answered:
  assumes "api_key w = Some k" "k \<noteq> []" "user_moral \<noteq> []"
    and "service w (length (calls w))
           (chat_request (classify_moral_safety_prompt user_moral age) 5 0) = Inr answer"
  shows "select_moral user_moral age w =
     (let w1 = w\<lparr>calls := calls w @ [chat_request (classify_moral_safety_prompt user_moral age) 5 0]\<rparr>
      in if py_startswith (py_upper (py_strip answer)) ''SAFE''
         then (Inr (user_moral, False, None), w1)
         else (Inr (SAFE_MORALS ! (rng w (draws w) mod 10), True, Some user_moral),
               w1\<lparr>draws := Suc (draws w)\<rparr>))"
  using assms
  by (simp add: select_moral_def classify_moral_safety_def and_then_def returns_def
      call_model_with_key random_choice_SAFE_MORALS Let_def)

lemma select_moral_returns:
  assumes "select_moral user_moral age w = (Inr (selected, overridden, original), w')"
  shows "selected \<noteq> [] \<and> (overridden \<longleftrightarrow> original \<noteq> None)
       \<and> (original \<noteq> None \<longrightarrow> original = Some user_moral \<and> selected \<in> set SAFE_MORALS)"
proof (cases "user_moral = []")
  case True
  then show ?thesis
    using assms SAFE_MORALS_facts(3) drawn_moral_in_pool[of "rng w (draws w)"]
    by (auto simp add: select_moral_empty)
next
  case False
  obtain r w1 where c: "classify_moral_safety user_moral age w = (r, w1)"
    by (cases "classify_moral_safety user_moral age w")
  show ?thesis
  proof (cases r)
    case (Inl e)
    then show ?thesis using assms False c by (simp add: select_moral_def and_then_def)
  next
    case (Inr is_safe)
    then show ?thesis
      using assms False c SAFE_MORALS_facts(3) drawn_moral_in_pool[of "rng w1 (draws w1)"]
      by (auto simp add: select_moral_def and_then_def returns_def random_choice_SAFE_MORALS
          split: if_splits)
  qed
qed

section \<open>Facts about reading a prompt\<close>

lemma after_first_found:
  "\<exists>rest. after_first pat (pre @ pat @ post) = Some rest \<and> suffix post rest"
proof (induction pre)
  case Nil
  show ?case
  proof (cases "pat @ post")
    case Nil
    then show ?thesis by simp
  next
    case (Cons c cs)
    then have "after_first pat (pat @ post) = Some post"
      by (metis after_first.simps(2) append_eq_conv_conj prefixI)
    then show ?thesis by simp
  qed
next
  case (Cons c pre)
  show ?case
  proof (cases "prefix pat (c # pre @ pat @ post)")
    case True
    have "drop (length pat) ((c # pre @ pat) @ post) = drop (length pat) (c # pre @ pat) @ post"
      using drop_append[of "length pat" "c # pre @ pat" post] by simp
    then have "suffix post (drop (length pat) (c # pre @ pat @ post))"
      by (simp add: suffix_def)
    then show ?thesis using True by simp
  next
    case False
    then show ?thesis using Cons.IH by simp
  qed
qed

lemma after_first_split:
  "after_first pat s = Some rest \<Longrightarrow> \<exists>pre. s = pre @ pat @ rest"
proof (induction s)
  case Nil
  then show ?case by (simp split: if_splits)
next
  case (Cons c cs)
  show ?case
  proof (cases "prefix pat (c # cs)")
    case True
    then have "rest = drop (length pat) (c # cs)" using Cons.prems by simp
    moreover have "c # cs = pat @ drop (length pat) (c # cs)"
      using True by (metis append_eq_conv_conj prefixE)
    ultimately have "c # cs = [] @ pat @ rest" by simp
    then show ?thesis by blast
  next
    case False
    then have "after_first pat cs = Some rest" using Cons.prems by simp
    then obtain pre where "cs = pre @ pat @ rest" using Cons.IH by blast
    then have "c # cs = (c # pre) @ pat @ rest" by simp
    then show ?thesis by blast
  qed
qed

lemma occur_in_order_suffix:
  "occur_in_order pats s \<Longrightarrow> suffix s s' \<Longrightarrow> occur_in_order pats s'"
proof (induction pats arbitrary: s s')
  case Nil
  then show ?case by simp
next
  case (Cons pat pats)
  from Cons.prems(1) obtain rest where r: "after_first pat s = Some rest"
    and o: "occur_in_order pats rest"
    by (auto split: option.splits)
  from after_first_split[OF r] obtain pre where "s = pre @ pat @ rest" by blast
  moreover from Cons.prems(2) obtain x where "s' = x @ s" by (auto simp add: suffix_def)
  ultimately have "s' = (x @ pre) @ pat @ rest" by simp
  then obtain rest' where r': "after_first pat s' = Some rest'" and sf: "suffix rest rest'"
    using after_first_found[of pat "x @ pre" rest] by auto
  from Cons.IH[OF o sf] r' show ?case by simp
qed

lemma occur_in_order_intro:
  assumes "occur_in_order pats post"
  shows "occur_in_order (pat # pats) (pre @ pat @ post)"
proof -
  obtain rest where r: "after_first pat (pre @ pat @ post) = Some rest" and s: "suffix post rest"
    using after_first_found[of pat pre post] by auto
  from occur_in_order_suffix[OF assms s] r show ?thesis by simp
qed

lemma occur_in_order_iff:
  "occur_in_order (pat # pats) text
   \<longleftrightarrow> (\<exists>pre post. text = pre @ pat @ post \<and> occur_in_order pats post)"
proof
  assume "occur_in_order (pat # pats) text"
  then obtain rest where r: "after_first pat text = Some rest" and o: "occur_in_order pats rest"
    by (auto split: option.splits)
  from after_first_split[OF r] o
  show "\<exists>pre post. text = pre @ pat @ post \<and> occur_in_order pats post" by blast
next
  assume "\<exists>pre post. text = pre @ pat @ post \<and> occur_in_order pats post"
  then show "occur_in_order (pat # pats) text" using occur_in_order_intro by blast
qed

lemma join_skip:
  "occur_in_order pats (py_join_lines (m # ls)) \<Longrightarrow> occur_in_order pats (py_join_lines (l # m # ls))"
proof (rule occur_in_order_suffix)
  show "suffix (py_join_lines (m # ls)) (py_join_lines (l # m # ls))"
    by (rule suffixI[of _ "l @ nl"]) simp
qed

lemma join_take:
  assumes "occur_in_order pats (py_join_lines (m # ls))"
  shows "occur_in_order (pat # pats) (py_join_lines (pat # m # ls))"
proof -
  have "occur_in_order pats (nl @ py_join_lines (m # ls))"
    using assms by (rule occur_in_order_suffix) (rule suffixI[of _ nl], simp)
  then have "occur_in_order (pat # pats) ([] @ pat @ nl @ py_join_lines (m # ls))"
    by (rule occur_in_order_intro)
  then show ?thesis by simp
qed

lemma join_last: "occur_in_order [pat] (py_join_lines (pat # ls))"
proof (cases ls)
  case Nil
  have "occur_in_order [pat] ([] @ pat @ [])" by (rule occur_in_order_intro) simp
  then show ?thesis using Nil by simp
next
  case (Cons m ms)
  have "occur_in_order [pat] ([] @ pat @ nl @ py_join_lines (m # ms))" by (rule occur_in_order_intro) simp
  then show ?thesis using Cons by simp
qed

lemma judge_story_prompt_outline:
  "occur_in_order (judge_outline story) (judge_story_prompt story age length_minutes target_words)"
  unfolding judge_outline_def metric_headers_def judge_story_prompt_def append.simps
  by (rule join_last | rule join_take | rule join_skip)+

lemma judge_story_prompt_metrics:
  "occur_in_order metric_headers (judge_story_prompt story age length_minutes target_words)"
  unfolding metric_headers_def judge_story_prompt_def
  by (rule join_last | rule join_take | rule join_skip)+

section \<open>Facts about the stages\<close>

lemma calls_after_call_model:
  assumes "api_key w = Some k" "k \<noteq> []"
  shows "calls (snd (call_model prompt max_tokens temperature w))
         = calls w @ [chat_request prompt max_tokens temperature]"
  using assms by (simp add: call_model_with_key)

lemma classify_moral_safety_world:
  "snd (classify_moral_safety moral age w)
   = snd (call_model (classify_moral_safety_prompt moral age) 5 0 w)"
  by (simp add: classify_moral_safety_def and_then_def returns_def Let_def
      split: prod.splits sum.splits)

lemma stage_calls_model:
  assumes "estimate_word_target length_minutes = Inr target_words"
  shows "generate_story request age category length_minutes moral
         = call_model
             (generate_story_prompt request age category length_minutes moral target_words)
             3000 0.35"
    and "judge_story story age length_minutes
         = call_model (judge_story_prompt story age length_minutes target_words)
             default_max_tokens 0.2"
    and "revise_story story critique age length_minutes
         = call_model (revise_story_prompt story critique age length_minutes target_words)
             3000 0.35"
    and "apply_user_feedback story user_notes age length_minutes
         = call_model (apply_user_feedback_prompt story user_notes age length_minutes target_words)
             3000 0.4"
  using assms
  by (simp_all add: generate_story_def judge_story_def revise_story_def apply_user_feedback_def)

lemma estimate_10: "estimate_word_target (Finite 10) = Inr 1500"
  by code_simp

section \<open>Facts about the main flow\<close>

lemma and_then_assoc:
  "and_then (and_then m f) g = and_then m (\<lambda>x. and_then (f x) g)"
  by (rule ext) (simp add: and_then_def split: prod.splits sum.splits)

lemma returns_and_then: "and_then (returns x) f = f x"
  by (rule ext) (simp add: and_then_def returns_def)

lemma main_split:
  "main py =
     and_then (main_until_revised py)
       (\<lambda>(revised, age, length_minutes). refine_step revised age length_minutes)"
  by (simp add: main_def main_until_revised_def refine_step_def and_then_assoc
      returns_and_then Let_def split_def cong: if_cong)

lemma refine_step_blank:
  assumes "stdin w = line # rest" "py_strip line = []"
  shows "refine_step revised age length_minutes w =
           (Inr (),
            w\<lparr>stdout := stdout w @ [nl @ ''Would you like any changes? '',
                                   nl @ ''--- FINAL STORY ---'' @ nl @ nl, revised @ nl],
              stdin := rest\<rparr>)"
  using assms
  by (simp add: refine_step_def and_then_def py_input_def py_print_def printed_def Let_def)

lemma refine_step_notes:
  assumes "stdin w = line # rest" "py_strip line \<noteq> []"
  shows "refine_step revised age length_minutes w =
           and_then (apply_user_feedback revised (py_strip line) age length_minutes)
             (\<lambda>final_story.
                and_then (py_print (nl @ ''--- FINAL STORY ---'' @ nl)) (\<lambda>_.
                py_print final_story))
             (w\<lparr>stdout := stdout w @ [nl @ ''Would you like any changes? ''], stdin := rest\<rparr>)"
  using assms
  by (simp add: refine_step_def and_then_def py_input_def Let_def)

lemma ends_in_and_then:
  assumes "ends_in m P E Q" "\<And>x. ends_in (f x) (Q x) E R"
  shows "ends_in (and_then m f) P E R"
  unfolding ends_in_def
proof (intro allI impI)
  fix w assume "P w"
  obtain r w1 where m: "m w = (r, w1)" by (cases "m w")
  show "case and_then m f w of (Inl e, w1) \<Rightarrow> E e w1 | (Inr x, w1) \<Rightarrow> R x w1"
  proof (cases r)
    case (Inl e)
    then have "E e w1" using assms(1) \<open>P w\<close> m by (auto simp add: ends_in_def)
    then show ?thesis using Inl m by (simp add: and_then_def)
  next
    case (Inr x)
    then have "Q x w1" using assms(1) \<open>P w\<close> m by (auto simp add: ends_in_def)
    then have "case f x w1 of (Inl e, w2) \<Rightarrow> E e w2 | (Inr y, w2) \<Rightarrow> R y w2"
      using assms(2)[of x] by (simp add: ends_in_def)
    then show ?thesis using Inr m by (simp add: and_then_def)
  qed
qed

lemma ends_in_frame:
  assumes "ends_in m P E Q"
  shows "ends_in m (\<lambda>w. P w \<and> F) E (\<lambda>x w. Q x w \<and> F)"
  using assms unfolding ends_in_def by (auto split: prod.splits sum.splits)

lemma ends_in_if:
  assumes "b \<Longrightarrow> ends_in m1 P E Q" "\<not> b \<Longrightarrow> ends_in m2 P E Q"
  shows "ends_in (if b then m1 else m2) P E Q"
  using assms by simp

lemma ends_in_pre:
  assumes "F \<Longrightarrow> ends_in m P E Q"
  shows "ends_in m (\<lambda>w. P w \<and> F) E Q"
  using assms unfolding ends_in_def by auto

lemma ends_in_after_False: "ends_in m (\<lambda>w. False) E Q"
  by (simp add: ends_in_def)

lemma locked_printed: "locked sent (printed s w) = locked sent w"
  by (simp add: locked_def printed_def)

lemma py_print_locked: "ends_in (py_print s) (locked sent) (stopped sent) (\<lambda>_. locked sent)"
  by (simp add: ends_in_def py_print_def locked_printed)

lemma py_input_locked: "ends_in (py_input p) (locked sent) (stopped sent) (\<lambda>_. locked sent)"
  by (auto simp add: ends_in_def py_input_def locked_def stopped_def split: list.splits)

lemma ask_for_moral_locked: "ends_in ask_for_moral (locked sent) (stopped sent) (\<lambda>_. locked sent)"
  unfolding ask_for_moral_def
  by (rule ends_in_and_then[OF py_input_locked]) (simp add: ends_in_def returns_def)

lemma ask_for_age_locked:
  "locked sent w \<Longrightarrow>
     (case ask_for_age py w of (Inl e, w1) \<Rightarrow> stopped sent e w1 | (Inr x, w1) \<Rightarrow> locked sent w1)"
proof (induction py w rule: ask_for_age.induct)
  case (1 py w)
  let ?p = "''How old is the child? (5'' @ en_dash @ ''10): ''"
  show ?case
  proof (cases "stdin w")
    case Nil
    then show ?thesis
      using "1.prems" by (subst ask_for_age.simps) (simp add: py_input_def locked_def stopped_def)
  next
    case (Cons line rest)
    let ?w1 = "w\<lparr>stdout := stdout w @ [?p], stdin := rest\<rparr>"
    have i: "py_input ?p w = (Inr line, ?w1)" using Cons by (simp add: py_input_def)
    have l1: "locked sent ?w1" using "1.prems" by (simp add: locked_def)
    show ?thesis
    proof (cases "int_of_str py (py_strip line)")
      case None
      have "locked sent (printed ''Please enter a valid number.'' ?w1)"
        using l1 by (simp add: locked_printed)
      from "1.IH"(1)[OF i[symmetric] refl None this] show ?thesis
        using i None by (subst ask_for_age.simps) simp
    next
      case (Some age)
      show ?thesis
      proof (cases "5 \<le> age \<and> age \<le> 10")
        case True
        then show ?thesis using i Some l1 by (subst ask_for_age.simps) simp
      next
        case False
        have "locked sent (printed ''Please enter a number between 5 and 10.'' ?w1)"
          using l1 by (simp add: locked_printed)
        from "1.IH"(2)[OF i[symmetric] refl Some False this] show ?thesis
          using i Some False by (subst ask_for_age.simps) auto
      qed
    qed
  qed
qed

lemma ask_for_age_ends: "ends_in (ask_for_age py) (locked sent) (stopped sent) (\<lambda>_. locked sent)"
  using ask_for_age_locked by (simp add: ends_in_def)

lemma ask_for_length_minutes_locked:
  "locked sent w \<Longrightarrow>
     (case ask_for_length_minutes py w of
        (Inl e, w1) \<Rightarrow> stopped sent e w1
      | (Inr x, w1) \<Rightarrow> locked sent w1 \<and> in_range x)"
proof (induction py w rule: ask_for_length_minutes.induct)
  case (1 py w)
  let ?p = "''How long should the story be? (5'' @ en_dash @ ''20 minutes): ''"
  show ?case
  proof (cases "stdin w")
    case Nil
    then show ?thesis
      using "1.prems"
      by (subst ask_for_length_minutes.simps) (simp add: py_input_def locked_def stopped_def)
  next
    case (Cons line rest)
    let ?w1 = "w\<lparr>stdout := stdout w @ [?p], stdin := rest\<rparr>"
    have i: "py_input ?p w = (Inr line, ?w1)" using Cons by (simp add: py_input_def)
    have l1: "locked sent ?w1" using "1.prems" by (simp add: locked_def)
    show ?thesis
    proof (cases "float_of_str py (py_strip line)")
      case None
      have "locked sent (printed ''Please enter a valid number (e.g., 5, 7.5, 12, 19.2).'' ?w1)"
        using l1 by (simp add: locked_printed)
      from "1.IH"(1)[OF i[symmetric] refl None this] show ?thesis
        using i None by (subst ask_for_length_minutes.simps) simp
    next
      case (Some minutes)
      show ?thesis
      proof (cases "float_le (Finite 5) minutes \<and> float_le minutes (Finite 20)")
        case True
        then show ?thesis
          using i Some l1 by (subst ask_for_length_minutes.simps) (simp add: in_range_def)
      next
        case False
        have "locked sent (printed ''Please enter a number between 5 and 20.'' ?w1)"
          using l1 by (simp add: locked_printed)
        from "1.IH"(2)[OF i[symmetric] refl Some False this] show ?thesis
          using i Some False by (subst ask_for_length_minutes.simps) auto
      qed
    qed
  qed
qed

lemma ask_for_length_minutes_ends:
  "ends_in (ask_for_length_minutes py) (locked sent) (stopped sent)
     (\<lambda>x w. locked sent w \<and> in_range x)"
  using ask_for_length_minutes_locked by (simp add: ends_in_def)

lemma in_range_estimate:
  assumes "in_range m"
  shows "\<exists>t. estimate_word_target m = Inr t"
proof (cases m)
  case (Finite d)
  then have "5 \<le> d" "d \<le> 20" using assms by (simp_all add: in_range_def float_le_def)
  from estimate_in_range(2)[OF this] show ?thesis using Finite by blast
qed (use assms in \<open>simp_all add: in_range_def float_le_def\<close>)

lemma call_model_locked:
  "ends_in (call_model prompt max_tokens temperature) (locked sent) (stopped sent) (\<lambda>_ _. False)"
  by (auto simp add: ends_in_def call_model_def locked_def stopped_def)

lemma random_choice_locked:
  "ends_in (random_choice SAFE_MORALS) (locked sent) (stopped sent) (\<lambda>_. locked sent)"
  by (simp add: ends_in_def random_choice_SAFE_MORALS locked_def)

lemma select_moral_locked:
  "ends_in (select_moral user_moral age) (locked sent) (stopped sent) (\<lambda>_. locked sent)"
proof (cases "user_moral = []")
  case True
  show ?thesis unfolding select_moral_def using True
    by (simp, intro ends_in_and_then[OF random_choice_locked])
      (simp add: ends_in_def returns_def)
next
  case False
  have c: "ends_in (classify_moral_safety user_moral age) (locked sent) (stopped sent)
             (\<lambda>_ _. False)"
    unfolding classify_moral_safety_def
    by (rule ends_in_and_then[OF call_model_locked]) (rule ends_in_after_False)
  have "ends_in
          (and_then (classify_moral_safety user_moral age)
             (\<lambda>is_safe.
                if is_safe then returns (user_moral, False, None)
                else and_then (random_choice SAFE_MORALS)
                       (\<lambda>safe_moral. returns (safe_moral, True, Some user_moral))))
          (locked sent) (stopped sent) (\<lambda>_. locked sent)"
    by (rule ends_in_and_then[OF c]) (rule ends_in_after_False)
  then show ?thesis using False by (simp add: select_moral_def)
qed

lemma generate_story_locked:
  assumes "in_range length_minutes"
  shows "ends_in (generate_story request age category length_minutes moral)
           (locked sent) (stopped sent) (\<lambda>_ _. False)"
proof -
  obtain t where "estimate_word_target length_minutes = Inr t"
    using in_range_estimate[OF assms] by blast
  then show ?thesis by (simp add: stage_calls_model(1) call_model_locked)
qed

lemma announce_locked:
  "ends_in
     (if overridden then
        and_then (py_print a) (\<lambda>_. and_then (py_print b) (\<lambda>_. and_then (py_print c) (\<lambda>_.
        py_print d)))
      else py_print e)
     (\<lambda>w. locked sent w \<and> F) (stopped sent) (\<lambda>_ w. locked sent w \<and> F)"
proof (rule ends_in_frame)
  have "ends_in
          (and_then (py_print a) (\<lambda>_. and_then (py_print b) (\<lambda>_. and_then (py_print c) (\<lambda>_.
           py_print d))))
          (locked sent) (stopped sent) (\<lambda>_. locked sent)"
    by (rule ends_in_and_then[OF py_print_locked])+ (rule py_print_locked)
  then show "ends_in
     (if overridden then
        and_then (py_print a) (\<lambda>_. and_then (py_print b) (\<lambda>_. and_then (py_print c) (\<lambda>_.
        py_print d)))
      else py_print e)
     (locked sent) (stopped sent) (\<lambda>_. locked sent)"
    by (simp add: py_print_locked)
qed

lemma main_locked:
  "ends_in (main py) (locked sent) (stopped sent) (\<lambda>_ _. False)"
  unfolding main_def
  apply (rule ends_in_and_then[OF py_print_locked])
  apply (rule ends_in_and_then[OF ask_for_age_ends])
  apply (rule ends_in_and_then[OF ask_for_length_minutes_ends])
  apply (rule ends_in_and_then[OF ends_in_frame[OF py_input_locked]])
  apply (rule ends_in_and_then[OF ends_in_frame[OF ask_for_moral_locked]])
  apply (rule ends_in_and_then[OF ends_in_frame[OF select_moral_locked]])
  apply (simp only: split_def)
  apply (rule ends_in_and_then[OF announce_locked])
  apply (simp only: Let_def)
  apply (rule ends_in_and_then[where Q = "\<lambda>_ _. False"])
   apply (rule ends_in_pre)
    apply (erule generate_story_locked)
   apply simp
  apply (rule ends_in_after_False)
  done

lemma example_run:
  "(case main_until_revised example_builtins
           (example_world (Some ''sk-test'') ''Once upon a time.'' example_typed) of
      (r, w1) \<Rightarrow>
        r = Inr (''Once upon a time.'', 7, Finite 10) \<and> stdin w1 = [[]]
        \<and> map req_temperature (calls w1) = [0.35, 0.2, 0.35])"
  by code_simp

section \<open>The claims\<close>








text \<open>
  Claim C4 says that the target word count is the product rounded to the nearest
  integer. At \<open>d = 5.03125\<close> the product is \<open>754.6875\<close>: the estimator returns 754 and
  rounding gives 755.
\<close>

theorem estimate_word_target_not_round:
  "estimate_word_target (Finite (161 / 32)) = Inr 754 \<and> py_round (161 / 32 * 150) = 755"
  by code_simp

text \<open>
  Claim C4, amended. For a duration \<open>d\<close> between 5 and 20 minutes the target word
  count is the product truncated to an integer. It is the rounded product when the
  fractional part of the product is below one half, and one less than the rounded
  product when the fractional part is above one half.
\<close>

theorem estimate_word_target_truncates:
  assumes "5 \<le> d" "d \<le> 20"
  shows "estimate_word_target (Finite d) = Inr \<lfloor>double_round (d * 150)\<rfloor>
       \<and> (\<lfloor>double_round (d * 150)\<rfloor> = py_round (double_round (d * 150))
            \<or> \<lfloor>double_round (d * 150)\<rfloor> = py_round (double_round (d * 150)) - 1)
       \<and> (frac (double_round (d * 150)) < 1 / 2
            \<longrightarrow> \<lfloor>double_round (d * 150)\<rfloor> = py_round (double_round (d * 150)))
       \<and> (1 / 2 < frac (double_round (d * 150))
            \<longrightarrow> \<lfloor>double_round (d * 150)\<rfloor> = py_round (double_round (d * 150)) - 1)"
  using estimate_in_range(2)[OF assms]
  by (simp add: py_round_def round_half_even_def Let_def frac_def)

theorem estimate_word_target_truncates_witness:
  "(5::rat) \<le> 161 / 32 \<and> (161 / 32 :: rat) \<le> 20
   \<and> 1 / 2 < frac (double_round (161 / 32 * 150))
   \<and> estimate_word_target (Finite (161 / 32)) = Inr (py_round (double_round (161 / 32 * 150)) - 1)"
proof -
  have a: "(5::rat) \<le> 161 / 32" and b: "(161 / 32 :: rat) \<le> 20" by simp_all
  have c: "1 / 2 < frac (double_round (161 / 32 * 150))" by code_simp
  from estimate_word_target_truncates[OF a b] c show ?thesis using a b by simp
qed

text \<open>
  Claim C5. With an empty moral the selector returns a member of the pool, the entry at
  the generator's next draw, not overridden and with no original moral. It takes one draw
  and leaves the rest of the world as it was: no request is sent to the service, and the
  result is the same with or without a credential. The pool has ten distinct entries, and
  each of them is returned for some draw. How the draws are distributed is the generator's
  business and is not part of the model.
\<close>

theorem select_moral_no_preference:
  "select_moral [] age w =
     (Inr (SAFE_MORALS ! (rng w (draws w) mod length SAFE_MORALS), False, None),
      w\<lparr>draws := Suc (draws w)\<rparr>)
   \<and> SAFE_MORALS ! (rng w (draws w) mod length SAFE_MORALS) \<in> set SAFE_MORALS
   \<and> length SAFE_MORALS = 10 \<and> distinct SAFE_MORALS
   \<and> calls (snd (select_moral [] age w)) = calls w
   \<and> (chosen \<in> set SAFE_MORALS
        \<longleftrightarrow> (\<exists>r. fst (select_moral [] age (w\<lparr>rng := always_draws r\<rparr>))
                   = Inr (chosen, False, None)))"
proof -
  have "chosen \<in> set SAFE_MORALS \<longleftrightarrow> (\<exists>r. chosen = SAFE_MORALS ! (r mod 10))"
  proof
    assume "chosen \<in> set SAFE_MORALS"
    then obtain i where "i < 10" "chosen = SAFE_MORALS ! i"
      by (auto simp add: in_set_conv_nth SAFE_MORALS_facts)
    then have "chosen = SAFE_MORALS ! (i mod 10)" by simp
    then show "\<exists>r. chosen = SAFE_MORALS ! (r mod 10)" by blast
  next
    assume "\<exists>r. chosen = SAFE_MORALS ! (r mod 10)"
    then show "chosen \<in> set SAFE_MORALS" using drawn_moral_in_pool by auto
  qed
  then show ?thesis
    using drawn_moral_in_pool[of "rng w (draws w)"]
    by (auto simp add: select_moral_empty SAFE_MORALS_facts SAFE_MORALS_distinct
        always_draws_def)
qed

text \<open>
  Claim C6. When the main flow has produced the revised story and the operator answers
  the question about changes with a blank line, the flow prints the revised story as the
  final story and ends. Nothing but the terminal and the line read changes in that step:
  the requests sent are those sent up to the revision, so the feedback applier sent none.
  With an answer that is not blank the flow goes on with the feedback applier instead.
\<close>

theorem blank_feedback_keeps_revised:
  assumes "fst (main_until_revised py w) = Inr (revised, age, length_minutes)"
    and "stdin (snd (main_until_revised py w)) = line # rest"
  shows "(py_strip line = [] \<longrightarrow>
           main py w =
             (Inr (),
              (snd (main_until_revised py w))
                \<lparr>stdout := stdout (snd (main_until_revised py w))
                             @ [nl @ ''Would you like any changes? '',
                                nl @ ''--- FINAL STORY ---'' @ nl @ nl, revised @ nl],
                 stdin := rest\<rparr>)
           \<and> calls (snd (main py w)) = calls (snd (main_until_revised py w))
           \<and> last (stdout (snd (main py w))) = revised @ nl)
       \<and> (py_strip line \<noteq> [] \<longrightarrow>
           main py w =
             and_then (apply_user_feedback revised (py_strip line) age length_minutes)
               (\<lambda>final_story.
                  and_then (py_print (nl @ ''--- FINAL STORY ---'' @ nl)) (\<lambda>_.
                  py_print final_story))
               ((snd (main_until_revised py w))
                  \<lparr>stdout := stdout (snd (main_until_revised py w))
                               @ [nl @ ''Would you like any changes? ''],
                   stdin := rest\<rparr>))"
proof -
  obtain w1 where m: "main_until_revised py w = (Inr (revised, age, length_minutes), w1)"
    using assms(1) by (cases "main_until_revised py w") simp
  then have i: "stdin w1 = line # rest" using assms(2) by simp
  have "main py w = refine_step revised age length_minutes w1"
    using m by (simp add: main_split and_then_def)
  then show ?thesis
    using m refine_step_blank[OF i, of revised age length_minutes]
      refine_step_notes[OF i, of revised age length_minutes]
    by simp
qed

theorem blank_feedback_keeps_revised_witness:
  "fst (main_until_revised example_builtins
          (example_world (Some ''sk-test'') ''Once upon a time.'' example_typed))
     = Inr (''Once upon a time.'', 7, Finite 10)
   \<and> stdin (snd (main_until_revised example_builtins
                   (example_world (Some ''sk-test'') ''Once upon a time.'' example_typed)))
       = [[]]
   \<and> py_strip [] = []
   \<and> map req_temperature
         (calls (snd (main example_builtins
                        (example_world (Some ''sk-test'') ''Once upon a time.'' example_typed))))
       = [0.35, 0.2, 0.35]
   \<and> last (stdout (snd (main example_builtins
                          (example_world (Some ''sk-test'') ''Once upon a time.'' example_typed))))
       = ''Once upon a time.'' @ nl"
proof -
  let ?w = "example_world (Some ''sk-test'') ''Once upon a time.'' example_typed"
  have a: "fst (main_until_revised example_builtins ?w) = Inr (''Once upon a time.'', 7, Finite 10)"
    and b: "stdin (snd (main_until_revised example_builtins ?w)) = [[]]"
    and c: "map req_temperature (calls (snd (main_until_revised example_builtins ?w)))
            = [0.35, 0.2, 0.35]"
    using example_run by (simp_all add: split_def)
  have d: "py_strip [] = []" by (simp add: py_strip_def)
  from blank_feedback_keeps_revised[OF a b] d
  have "calls (snd (main example_builtins ?w)) = calls (snd (main_until_revised example_builtins ?w))
        \<and> last (stdout (snd (main example_builtins ?w))) = ''Once upon a time.'' @ nl"
    by blast
  then show ?thesis using a b c d by simp
qed

text \<open>
  Claim C7 says that a missing credential surfaces before any stage of the pipeline
  runs. In the example run the operator gives no moral: the moral selector runs to its
  end, taking a draw and having its choice announced, and the error comes after that,
  from the generator.
\<close>

theorem credential_error_after_moral_selection:
  "fst (main example_builtins (example_world None ''Once upon a time.'' example_typed))
     = Inl config_error
   \<and> draws (snd (main example_builtins
                   (example_world None ''Once upon a time.'' example_typed))) = 1
   \<and> last (stdout (snd (main example_builtins
                          (example_world None ''Once upon a time.'' example_typed))))
       = nl @ ''Using moral: ''
         @ example_repr_str ''It is okay to be afraid; courage means trying anyway.'' @ nl @ nl"
  by code_simp

text \<open>
  Claim C7, amended. Without a credential in the environment, or with an empty one, every
  call of the model wrapper raises the configuration error before a request is sent and
  leaves the world as it was. A run therefore sends no request and retries nothing, and it
  ends with the configuration error, or with the end of the operator's input if that comes
  first. The error surfaces at the first stage that calls the service: in the moral
  selector when a moral was given, and otherwise in the generator.
\<close>

theorem main_without_credential:
  assumes "api_key w = None \<or> api_key w = Some []"
  shows "call_model prompt max_tokens temperature w = (Inl config_error, w)
       \<and> calls (snd (main py w)) = calls w
       \<and> (fst (main py w) = Inl EOFError \<or> fst (main py w) = Inl config_error)
       \<and> (user_moral \<noteq> [] \<longrightarrow> select_moral user_moral age w = (Inl config_error, w))
       \<and> (in_range length_minutes \<longrightarrow>
            generate_story request age category length_minutes moral w = (Inl config_error, w))"
proof -
  have c: "call_model p m t w = (Inl config_error, w)" for p m t
    using assms by (rule call_model_without_key)
  have l: "locked (calls w) w" using assms by (simp add: locked_def)
  obtain r w1 where m: "main py w = (r, w1)" by (cases "main py w")
  from main_locked[of py "calls w"] l m
  have "case r of Inl e \<Rightarrow> stopped (calls w) e w1 | Inr x \<Rightarrow> False"
    by (auto simp add: ends_in_def split: sum.splits)
  then have "calls w1 = calls w \<and> (r = Inl EOFError \<or> r = Inl config_error)"
    by (auto simp add: stopped_def locked_def split: sum.splits)
  moreover have "select_moral user_moral age w = (Inl config_error, w)" if "user_moral \<noteq> []"
    using that c by (simp add: select_moral_def classify_moral_safety_def and_then_def)
  moreover have "generate_story request age category length_minutes moral w
                 = (Inl config_error, w)" if r: "in_range length_minutes"
  proof -
    obtain t where "estimate_word_target length_minutes = Inr t"
      using in_range_estimate[OF r] by blast
    then show ?thesis using c by (simp add: stage_calls_model(1))
  qed
  ultimately show ?thesis using c m by simp
qed

theorem main_without_credential_witness:
  "(api_key (example_world None ''Once upon a time.'' example_typed) = None
    \<or> api_key (example_world None ''Once upon a time.'' example_typed) = Some [])
   \<and> ''Never share your toys.'' \<noteq> []
   \<and> in_range (Finite 10)
   \<and> calls (snd (main example_builtins
                   (example_world None ''Once upon a time.'' example_typed))) = []
   \<and> fst (select_moral ''Never share your toys.'' 7
            (example_world None ''Once upon a time.'' example_typed)) = Inl config_error
   \<and> fst (generate_story ''a story about a brave dog'' 7 ''animal_friendship'' (Finite 10)
            ''Kindness to others is important.''
            (example_world None ''Once upon a time.'' example_typed)) = Inl config_error"
proof -
  let ?w = "example_world None ''Once upon a time.'' example_typed"
  have a: "api_key ?w = None \<or> api_key ?w = Some []" by (simp add: example_world_def)
  have b: "''Never share your toys.'' \<noteq> []" by simp
  have c: "in_range (Finite 10)" by (simp add: in_range_def float_le_def)
  have d: "calls ?w = []" by (simp add: example_world_def)
  from main_without_credential[OF a, where py = example_builtins
      and user_moral = "''Never share your toys.''" and age = 7
      and length_minutes = "Finite 10" and request = "''a story about a brave dog''"
      and category = "''animal_friendship''" and moral = "''Kindness to others is important.''"]
  show ?thesis using a b c d by simp
qed

text \<open>
  Claim C8 says that the judge calls the service with a default or unbounded token
  budget. The judge names no budget, and the wrapper's default of 1500 tokens applies:
  the request the judge sends carries the budget 1500.
\<close>

theorem judge_story_budget_is_1500:
  "map req_max_tokens
     (calls (snd (judge_story ''Once upon a time.'' 7 (Finite 10)
                    (example_world (Some ''sk-test'') ''fine'' []))))
   = [1500]"
  by code_simp

text \<open>
  Claim C8, amended. With a credential set and a duration whose word target can be
  computed, every stage sends exactly one request, with the stage's budget and
  temperature: the moral safety classification 5 and 0.0, the generator 3000 and 0.35,
  the judge the wrapper's default budget of 1500 and 0.2, the reviser 3000 and 0.35, and
  the feedback applier 3000 and 0.4.
\<close>

theorem stage_budgets:
  assumes "api_key w = Some k" "k \<noteq> []"
    and "estimate_word_target length_minutes = Inr target_words"
  shows "calls (snd (classify_moral_safety moral age w))
           = calls w @ [chat_request (classify_moral_safety_prompt moral age) 5 0.0]
       \<and> calls (snd (generate_story request age category length_minutes moral w))
           = calls w @ [chat_request
                (generate_story_prompt request age category length_minutes moral target_words)
                3000 0.35]
       \<and> calls (snd (judge_story story age length_minutes w))
           = calls w @ [chat_request
                (judge_story_prompt story age length_minutes target_words) 1500 0.2]
       \<and> calls (snd (revise_story story critique age length_minutes w))
           = calls w @ [chat_request
                (revise_story_prompt story critique age length_minutes target_words)
                3000 0.35]
       \<and> calls (snd (apply_user_feedback story user_notes age length_minutes w))
           = calls w @ [chat_request
                (apply_user_feedback_prompt story user_notes age length_minutes target_words)
                3000 0.4]
       \<and> req_max_tokens (chat_request prompt max_tokens temperature) = max_tokens
       \<and> req_temperature (chat_request prompt max_tokens temperature) = temperature"
  using calls_after_call_model[OF assms(1,2)]
  by (simp add: stage_calls_model[OF assms(3)] classify_moral_safety_world
      default_max_tokens_def chat_request_def)

theorem stage_budgets_witness:
  "api_key (example_world (Some ''sk-test'') ''fine'' []) = Some ''sk-test''
   \<and> ''sk-test'' \<noteq> []
   \<and> estimate_word_target (Finite 10) = Inr 1500
   \<and> calls (snd (judge_story ''Once upon a time.'' 7 (Finite 10)
                   (example_world (Some ''sk-test'') ''fine'' [])))
       = [chat_request (judge_story_prompt ''Once upon a time.'' 7 (Finite 10) 1500) 1500 0.2]
   \<and> calls (snd (apply_user_feedback ''Once upon a time.'' ''Add a dog.'' 7 (Finite 10)
                   (example_world (Some ''sk-test'') ''fine'' [])))
       = [chat_request
            (apply_user_feedback_prompt ''Once upon a time.'' ''Add a dog.'' 7 (Finite 10) 1500)
            3000 0.4]"
proof -
  let ?w = "example_world (Some ''sk-test'') ''fine'' []"
  have a: "api_key ?w = Some ''sk-test''" by (simp add: example_world_def)
  have b: "''sk-test'' \<noteq> []" by simp
  have c: "calls ?w = []" by (simp add: example_world_def)
  from stage_budgets[OF a b estimate_10, where story = "''Once upon a time.''" and age = 7
      and user_notes = "''Add a dog.''"]
  show ?thesis using a b c estimate_10 by simp
qed

text \<open>
  Claim C9. For every draft, age and duration whose word target can be computed, the
  judge sends the service the instruction \<open>judge_story_prompt\<close>. The instruction lists
  the twelve metrics by number and name, in the order of \<open>metric_headers\<close>. It asks for a
  score from 1 to 10 for each category before the list, and after the list it asks for the
  scores in the order above, asks for a bullet list of improvements, forbids rewriting the
  story, and then gives the story.
\<close>

theorem judge_story_instruction:
  assumes "estimate_word_target length_minutes = Inr target_words"
  shows "judge_story story age length_minutes w
           = call_model (judge_story_prompt story age length_minutes target_words)
               default_max_tokens 0.2 w
       \<and> occur_in_order metric_headers
            (judge_story_prompt story age length_minutes target_words)
       \<and> occur_in_order (judge_outline story)
            (judge_story_prompt story age length_minutes target_words)"
  using stage_calls_model(2)[OF assms] judge_story_prompt_outline judge_story_prompt_metrics
  by simp

theorem judge_story_instruction_witness:
  "estimate_word_target (Finite 10) = Inr 1500
   \<and> occur_in_order metric_headers (judge_story_prompt ''Once upon a time.'' 7 (Finite 10) 1500)"
  using judge_story_instruction[OF estimate_10] estimate_10 by simp

text \<open>
  Claim C10. Whatever the selector returns, the selected moral is not empty, the moral
  is marked as overridden exactly when the original moral is present, and a present
  original moral is the user's text, the selected moral then being a member of the pool.
  The selector does return when the moral is empty, and when the credential is set and
  the classifier answers with a text.
\<close>

theorem select_moral_result_invariant:
  "(fst (select_moral user_moral age w) = Inr (selected, overridden, original)
      \<longrightarrow> selected \<noteq> [] \<and> (overridden \<longleftrightarrow> original \<noteq> None)
          \<and> (original \<noteq> None \<longrightarrow> original = Some user_moral \<and> selected \<in> set SAFE_MORALS))
   \<and> (user_moral = []
        \<or> (api_key w = Some k \<and> k \<noteq> []
            \<and> service w (length (calls w))
                 (chat_request (classify_moral_safety_prompt user_moral age) 5 0) = Inr answer)
      \<longrightarrow> (\<exists>result. fst (select_moral user_moral age w) = Inr result))"
proof -
  have "selected \<noteq> [] \<and> (overridden \<longleftrightarrow> original \<noteq> None)
        \<and> (original \<noteq> None \<longrightarrow> original = Some user_moral \<and> selected \<in> set SAFE_MORALS)"
    if "fst (select_moral user_moral age w) = Inr (selected, overridden, original)"
  proof -
    have "select_moral user_moral age w
            = (Inr (selected, overridden, original), snd (select_moral user_moral age w))"
      using that by (simp add: prod_eq_iff)
    then show ?thesis by (rule select_moral_returns)
  qed
  moreover have "\<exists>result. fst (select_moral user_moral age w) = Inr result"
    if "user_moral = []"
    using that by (auto simp add: select_moral_empty)
  moreover have "\<exists>result. fst (select_moral user_moral age w) = Inr result"
    if "user_moral \<noteq> []" "api_key w = Some k" "k \<noteq> []"
      "service w (length (calls w))
         (chat_request (classify_moral_safety_prompt user_moral age) 5 0) = Inr answer"
    using select_moral_answered[OF that(2,3,1,4)] by (auto simp add: Let_def)
  ultimately show ?thesis by blast
qed

theorem select_moral_result_invariant_witness:
  "fst (select_moral ''Never share your toys.'' 7 (example_world (Some ''sk-test'') ''no'' []))
     = Inr (''It is okay to be afraid; courage means trying anyway.'', True,
            Some ''Never share your toys.'')
   \<and> ''It is okay to be afraid; courage means trying anyway.'' \<in> set SAFE_MORALS
   \<and> api_key (example_world (Some ''sk-test'') ''no'' []) = Some ''sk-test''
   \<and> service (example_world (Some ''sk-test'') ''no'' [])
         (length (calls (example_world (Some ''sk-test'') ''no'' [])))
         (chat_request (classify_moral_safety_prompt ''Never share your toys.'' 7) 5 0)
       = Inr ''no''"
proof -
  let ?w = "example_world (Some ''sk-test'') ''no'' []"
  have a: "fst (select_moral ''Never share your toys.'' 7 ?w)
     = Inr (''It is okay to be afraid; courage means trying anyway.'', True,
            Some ''Never share your toys.'')"
    by code_simp
  have b: "api_key ?w = Some ''sk-test''" by (simp add: example_world_def)
  have c: "service ?w (length (calls ?w))
             (chat_request (classify_moral_safety_prompt ''Never share your toys.'' 7) 5 0)
           = Inr ''no''"
    by (simp add: example_world_def always_answers_def)
  from select_moral_result_invariant[of "''Never share your toys.''" 7 ?w
      "''It is okay to be afraid; courage means trying anyway.''" True
      "Some ''Never share your toys.''"] a
  have "''It is okay to be afraid; courage means trying anyway.'' \<in> set SAFE_MORALS"
    by blast
  then show ?thesis using a b c by blast
qed

end
